theory Spec2Isabelle
  imports Complex_Main "HOL-Library.Multiset"
begin

section \<open>Errors\<close>

text \<open>
  Every Python exception that the module can surface is a value of \<open>error\<close>.
  \<open>ZeroDivisionError\<close> is the subclass of \<open>ArithmeticError\<close> raised by a division by zero,
  \<open>AttributeError\<close> is raised by an attribute access on an object that lacks the attribute,
  \<open>ShapeMismatchError\<close> is raised by the flatten/convert step, and \<open>OtherError\<close> stands for
  whatever the external collaborators (the curvature formula, the model's forward pass) raise.
\<close>

datatype error =
    ZeroDivisionError
  | AttributeError
  | ShapeMismatchError
  | OtherError string

fun is_ArithmeticError :: "error \<Rightarrow> bool" where
  "is_ArithmeticError ZeroDivisionError = True"
| "is_ArithmeticError AttributeError = False"
| "is_ArithmeticError ShapeMismatchError = False"
| "is_ArithmeticError (OtherError s) = False"

section \<open>Tensors\<close>

text \<open>
  A \<open>torch.Tensor\<close>: its shape, its elements in row-major order (exact reals: rounding is
  not modelled), and whether it is linked to a gradient-computation graph.
  \<open>detach\<close> severs that link and leaves the numeric value.
\<close>

record tensor =
  shape :: "nat list"
  elems :: "real list"
  requires_grad :: bool

definition detach :: "tensor \<Rightarrow> tensor" where
  "detach t = t\<lparr>requires_grad := False\<rparr>"

text \<open>An \<open>nn.Module\<close>, as far as this module looks at it: the names and shapes of its
  trainable parameters, in their stable order.\<close>

record nn_Module =
  trainable_parameters :: "(string \<times> nat list) list"

section \<open>ArchitectureTensor\<close>

type_synonym FlattenedMatrix = "real list"

type_synonym ArchitectureTensor = "(string \<times> nat list) list"

definition numel :: "nat list \<Rightarrow> nat" where
  "numel s = prod_list s"

definition total_numel :: "ArchitectureTensor \<Rightarrow> nat" where
  "total_numel a = sum_list (map (\<lambda>p. numel (snd p)) a)"

text \<open>Modelled from the spec: the class \<open>ArchitectureTensor\<close> of
  \<open>arithmetics/weights_wrapper.py\<close> is missing. Its constructor snapshots the ordered
  (name, shape) pairs of the model's trainable parameters.\<close>

definition ArchitectureTensor :: "nn_Module \<Rightarrow> ArchitectureTensor" where
  "ArchitectureTensor m = trainable_parameters m"

text \<open>Modelled from the spec: \<open>ArchitectureTensor.zeros\<close> is missing. It gives the
  zero-initialised flattened matrix matching the parameter structure.\<close>

definition zeros :: "ArchitectureTensor \<Rightarrow> FlattenedMatrix" where
  "zeros a = replicate (total_numel a) 0"

text \<open>A list of per-parameter tensors is valid for a parameter structure when it has exactly
  one tensor per entry, in the same order, with matching shape.\<close>

definition matches :: "ArchitectureTensor \<Rightarrow> tensor list \<Rightarrow> bool" where
  "matches a ts \<longleftrightarrow>
     map shape ts = map snd a \<and> list_all (\<lambda>t. length (elems t) = numel (shape t)) ts"

definition flatten :: "tensor list \<Rightarrow> FlattenedMatrix" where
  "flatten ts = concat (map elems ts)"

text \<open>Modelled from the spec: \<open>ArchitectureTensor.to_tensor\<close> is missing. It flattens and
  concatenates the per-parameter tensors, and raises on a list whose length or shapes do not
  match the parameter structure.\<close>

definition to_tensor :: "ArchitectureTensor \<Rightarrow> tensor list \<Rightarrow> error + FlattenedMatrix" where
  "to_tensor a ts = (if matches a ts then Inr (flatten ts) else Inl ShapeMismatchError)"

text \<open>Modelled from the spec: the in-place addition of the flattened matrix is missing. It is
  element-wise.\<close>

definition iadd :: "FlattenedMatrix \<Rightarrow> FlattenedMatrix \<Rightarrow> FlattenedMatrix" where
  "iadd h m = map2 (+) h m"

text \<open>Modelled from the spec: the division of the flattened matrix by a Python integer is
  missing. It is element-wise, and fails with a division by zero when the divisor is 0.\<close>

definition truediv :: "FlattenedMatrix \<Rightarrow> int \<Rightarrow> error + FlattenedMatrix" where
  "truediv h n = (if n = 0 then Inl ZeroDivisionError else Inr (map (\<lambda>x. x / of_int n) h))"

section \<open>HessianCallback\<close>

record HessianCallback =
  model :: nn_Module
  arch :: ArchitectureTensor
  hessian :: FlattenedMatrix
  num_samples :: int

text \<open>\<open>HessianCallback.__init__\<close>\<close>

definition HessianCallback_init :: "nn_Module \<Rightarrow> HessianCallback" where
  "HessianCallback_init m =
     \<lparr>model = m, arch = ArchitectureTensor m,
      hessian = zeros (ArchitectureTensor m), num_samples = 0\<rparr>"

text \<open>\<open>HessianCallback.add_sample\<close>: the counter is incremented first; when the conversion
  raises, the exception leaves the object with the counter already incremented and the running
  sum untouched.\<close>

definition add_sample :: "tensor list \<Rightarrow> HessianCallback \<Rightarrow> (error + unit) \<times> HessianCallback" where
  "add_sample sample_hessian self =
     (let self1 = self\<lparr>num_samples := num_samples self + 1\<rparr> in
      case to_tensor (arch self1) sample_hessian of
        Inl e \<Rightarrow> (Inl e, self1)
      | Inr m \<Rightarrow> (Inr (), self1\<lparr>hessian := iadd (hessian self1) m\<rparr>))"

text \<open>\<open>HessianCallback.get_hessian\<close>\<close>

definition get_hessian :: "HessianCallback \<Rightarrow> error + FlattenedMatrix" where
  "get_hessian self = truediv (hessian self) (num_samples self)"

text \<open>A sequence of \<open>add_sample\<close> calls on one object; the first exception ends it.\<close>

fun add_samples :: "tensor list list \<Rightarrow> HessianCallback \<Rightarrow> (error + unit) \<times> HessianCallback" where
  "add_samples [] self = (Inr (), self)"
| "add_samples (s # ss) self =
     (case add_sample s self of
        (Inl e, self') \<Rightarrow> (Inl e, self')
      | (Inr u, self') \<Rightarrow> add_samples ss self')"

text \<open>The same sequence of calls where the caller catches each exception and goes on, so that
  every call of the list is made.\<close>

fun add_samples_all :: "tensor list list \<Rightarrow> HessianCallback \<Rightarrow> HessianCallback" where
  "add_samples_all [] self = self"
| "add_samples_all (s # ss) self = add_samples_all ss (snd (add_sample s self))"

text \<open>The element-wise mean of a list of flattened matrices of \<open>n\<close> elements each, as the
  specification words it.\<close>

definition elementwise_mean :: "nat \<Rightarrow> FlattenedMatrix list \<Rightarrow> FlattenedMatrix" where
  "elementwise_mean n vs =
     map (\<lambda>i. sum_list (map (\<lambda>v. v ! i) vs) / of_nat (length vs)) [0..<n]"

section \<open>Model outputs and the external collaborators\<close>

text \<open>A \<open>ModelOutput\<close>: the \<open>logits\<close> attribute (\<open>None\<close> when the object has no such
  attribute) and all its other fields, which this module never looks at.\<close>

record 'x ModelOutput =
  logits :: "tensor option"
  other_fields :: 'x

text \<open>The collaborators that are not part of this module: \<open>hess\<close>, the curvature formula of
  \<open>computation/fisher.py\<close>, a function of the model and the logits that may raise; and
  \<open>class_forward\<close>, the \<open>_forward\<close> method that the pipeline's class defines, which runs the
  model on one batch of dataset items under the ambient gradient mode (\<open>True\<close> when gradient
  tracking is enabled) and may raise.\<close>

record ('i, 'x) env =
  hess :: "nn_Module \<Rightarrow> tensor \<Rightarrow> error + tensor list"
  class_forward :: "nn_Module \<Rightarrow> 'i list \<Rightarrow> bool \<Rightarrow> error + 'x ModelOutput"

text \<open>\<open>HessianCallback.__call__\<close>. Both the outputs object and the callback object are
  mutable; the result carries the state of each after the call, also when the call raises.\<close>

definition HessianCallback_call ::
  "('i, 'x) env \<Rightarrow> 'x ModelOutput \<Rightarrow> HessianCallback \<Rightarrow>
     (error + unit) \<times> 'x ModelOutput \<times> HessianCallback" where
  "HessianCallback_call ev outputs self =
     (case logits outputs of
        None \<Rightarrow> (Inl AttributeError, outputs, self)
      | Some lg \<Rightarrow>
          (case hess ev (model self) lg of
             Inl e \<Rightarrow> (Inl e, outputs, self)
           | Inr H \<Rightarrow>
               (case add_sample H self of
                  (Inl e, self') \<Rightarrow> (Inl e, outputs, self')
                | (Inr u, self') \<Rightarrow>
                    (Inr (), outputs\<lparr>logits := Some (detach lg)\<rparr>, self'))))"

section \<open>add_callback\<close>

text \<open>A procedure over a world \<open>'w\<close> of mutable state either raises or returns a value, and
  leaves a world behind in both cases.\<close>

type_synonym ('r, 'w) action = "'w \<Rightarrow> (error + 'r) \<times> 'w"

text \<open>A procedure reference is a plain function or a bound method object; only the latter has
  the attributes \<open>__self__\<close> and \<open>__func__\<close>. The type \<open>'a\<close> is the bundle of positional and
  keyword arguments that follows \<open>self\<close>.\<close>

datatype ('s, 'a, 'o, 'w) procedure =
    Function "'s \<Rightarrow> 'a \<Rightarrow> ('o, 'w) action"
  | BoundMethod 's "'s \<Rightarrow> 'a \<Rightarrow> ('o, 'w) action"

fun dunder_func :: "('s, 'a, 'o, 'w) procedure \<Rightarrow> error + ('s \<Rightarrow> 'a \<Rightarrow> ('o, 'w) action)" where
  "dunder_func (Function f) = Inl AttributeError"
| "dunder_func (BoundMethod obj f) = Inr f"

text \<open>\<open>add_callback\<close> returns the closure \<open>new_func\<close>. The callback receives the outputs object
  and may mutate it: it returns the object's state after the call.\<close>

definition add_callback ::
  "('s, 'a, 'o, 'w) procedure \<Rightarrow> ('o \<Rightarrow> ('o, 'w) action) \<Rightarrow> 's \<Rightarrow> 'a \<Rightarrow> ('o, 'w) action" where
  "add_callback func callback = (\<lambda>self args w.
     case dunder_func func of
       Inl e \<Rightarrow> (Inl e, w)
     | Inr f \<Rightarrow>
         (case f self args w of
            (Inl e, w1) \<Rightarrow> (Inl e, w1)
          | (Inr outputs, w1) \<Rightarrow>
              (case callback outputs w1 of
                 (Inl e, w2) \<Rightarrow> (Inl e, w2)
               | (Inr outputs', w2) \<Rightarrow> (Inr outputs', w2))))"

text \<open>Calling a procedure once per element of a list of argument bundles, in order; the first
  exception ends the run.\<close>

fun run_calls :: "('s \<Rightarrow> 'a \<Rightarrow> ('o, 'w) action) \<Rightarrow> 's \<Rightarrow> 'a list \<Rightarrow> ('o list, 'w) action" where
  "run_calls g self [] w = (Inr [], w)"
| "run_calls g self (a # as) w =
     (case g self a w of
        (Inl e, w1) \<Rightarrow> (Inl e, w1)
      | (Inr out, w1) \<Rightarrow>
          (case run_calls g self as w1 of
             (Inl e, w2) \<Rightarrow> (Inl e, w2)
           | (Inr outs, w2) \<Rightarrow> (Inr (out # outs), w2)))"

text \<open>To observe calls, a procedure and a callback are run next to a trace that neither of
  them can see: the procedure records its arguments and the outputs it returned, the callback
  records the outputs it was called on.\<close>

datatype ('a, 'o) event = ForwardReturned 'a 'o | CallbackCalled 'o

definition traced_func ::
  "('s \<Rightarrow> 'a \<Rightarrow> ('o, 'w) action) \<Rightarrow> 's \<Rightarrow> 'a \<Rightarrow> ('o, 'w \<times> ('a, 'o) event list) action" where
  "traced_func f = (\<lambda>self args (w, tr).
     case f self args w of
       (Inl e, w1) \<Rightarrow> (Inl e, (w1, tr))
     | (Inr out, w1) \<Rightarrow> (Inr out, (w1, tr @ [ForwardReturned args out])))"

definition traced_callback ::
  "('o \<Rightarrow> ('o, 'w) action) \<Rightarrow> 'o \<Rightarrow> ('o, 'w \<times> ('a, 'o) event list) action" where
  "traced_callback cb = (\<lambda>out (w, tr).
     case cb out w of (r, w1) \<Rightarrow> (r, (w1, tr @ [CallbackCalled out])))"

fun is_CallbackCalled :: "('a, 'o) event \<Rightarrow> bool" where
  "is_CallbackCalled (CallbackCalled out) = True"
| "is_CallbackCalled (ForwardReturned args out) = False"

section \<open>The pipeline\<close>

text \<open>The two attributes of the pipeline object that \<open>fisher_matrix\<close> assigns hold functions.
  They are represented by what they were built from: the selector of the inference context is
  the class's own (it selects \<open>torch.no_grad\<close>) or the lambda that selects \<open>torch.enable_grad\<close>;
  \<open>_forward\<close> is the class's own method or \<open>MethodType(add_callback(previous, callback), pipe)\<close>,
  where the callback object is named by its address in the store.\<close>

datatype context_selector = class_inference_context | select_enable_grad

datatype forward_method = class_forward_method | callback_forward forward_method nat

record Pipeline =
  pipe_model :: nn_Module
  get_inference_context :: context_selector
  forward_attr :: forward_method

text \<open>The world of \<open>fisher_matrix\<close>: the pipeline object, the store of callback objects with
  the next free address, and the ambient gradient mode.\<close>

record world =
  pipe :: Pipeline
  store :: "nat \<Rightarrow> HessianCallback"
  next_addr :: nat
  grad_enabled :: bool

fun enter_context :: "context_selector \<Rightarrow> bool" where
  "enter_context class_inference_context = False"
| "enter_context select_enable_grad = True"

text \<open>The callback object at an address, called on an outputs object.\<close>

definition callback_at ::
  "('i, 'x) env \<Rightarrow> nat \<Rightarrow> 'x ModelOutput \<Rightarrow> ('x ModelOutput, world) action" where
  "callback_at ev a outputs w =
     (case HessianCallback_call ev outputs (store w a) of
        (Inl e, outputs', self') \<Rightarrow> (Inl e, w\<lparr>store := (store w)(a := self')\<rparr>)
      | (Inr u, outputs', self') \<Rightarrow> (Inr outputs', w\<lparr>store := (store w)(a := self')\<rparr>))"

text \<open>What calling \<open>pipe._forward(model_inputs)\<close> does, by the value of the attribute.\<close>

fun invoke_forward ::
  "('i, 'x) env \<Rightarrow> forward_method \<Rightarrow> unit \<Rightarrow> 'i list \<Rightarrow> ('x ModelOutput, world) action" where
  "invoke_forward ev class_forward_method =
     (\<lambda>self inputs w.
        (class_forward ev (pipe_model (pipe w)) inputs (grad_enabled w), w))"
| "invoke_forward ev (callback_forward m a) =
     add_callback (BoundMethod () (invoke_forward ev m)) (callback_at ev a)"

text \<open>\<open>Pipeline.forward\<close> of the transformers library: the context that the selector gives is
  entered, \<open>_forward\<close> runs inside it, and the previous gradient mode is restored on the way
  out, also when \<open>_forward\<close> raises.\<close>

definition forward :: "('i, 'x) env \<Rightarrow> 'i list \<Rightarrow> ('x ModelOutput, world) action" where
  "forward ev inputs w =
     (let saved = grad_enabled w;
          w1 = w\<lparr>grad_enabled := enter_context (get_inference_context (pipe w))\<rparr>
      in case invoke_forward ev (forward_attr (pipe w1)) () inputs w1 of
           (r, w2) \<Rightarrow> (r, w2\<lparr>grad_enabled := saved\<rparr>))"

text \<open>The batches of a dataset, \<open>n\<close> items each (the last one may be shorter).\<close>

function batches :: "nat \<Rightarrow> 'i list \<Rightarrow> 'i list list" where
  "batches n xs = (if n = 0 \<or> xs = [] then [] else take n xs # batches n (drop n xs))"
  by pat_completeness auto
termination
  by (relation "measure (\<lambda>(n, xs). length xs)") auto

declare batches.simps [simp del]

text \<open>\<open>pipe(dataset, batch_size=n)\<close> of the transformers library gives a lazy iterator: the
  batches still to be run. A batch size of 0 is refused.\<close>

definition pipe_call :: "'i list \<Rightarrow> nat \<Rightarrow> error + 'i list list" where
  "pipe_call dataset batch_size =
     (if batch_size = 0 then Inl (OtherError ''batch_size'') else Inr (batches batch_size dataset))"

text \<open>\<open>list(iterator)\<close>: every pending batch goes through \<open>forward\<close>, in order; the first
  exception ends the run.\<close>

fun list_of_iterator ::
  "('i, 'x) env \<Rightarrow> 'i list list \<Rightarrow> ('x ModelOutput list, world) action" where
  "list_of_iterator ev [] w = (Inr [], w)"
| "list_of_iterator ev (b # bs) w =
     (case forward ev b w of
        (Inl e, w1) \<Rightarrow> (Inl e, w1)
      | (Inr out, w1) \<Rightarrow>
          (case list_of_iterator ev bs w1 of
             (Inl e, w2) \<Rightarrow> (Inl e, w2)
           | (Inr outs, w2) \<Rightarrow> (Inr (out # outs), w2)))"

section \<open>fisher_matrix\<close>

definition fisher_matrix :: "('i, 'x) env \<Rightarrow> 'i list \<Rightarrow> (FlattenedMatrix, world) action" where
  "fisher_matrix ev dataset w =
     (let m = pipe_model (pipe w);
          hess_callback = next_addr w;
          w1 = w\<lparr>store := (store w)(hess_callback := HessianCallback_init m),
                 next_addr := next_addr w + 1\<rparr>;
          w2 = w1\<lparr>pipe := (pipe w1)\<lparr>get_inference_context := select_enable_grad\<rparr>\<rparr>;
          w3 = w2\<lparr>pipe := (pipe w2)\<lparr>forward_attr :=
                 callback_forward (forward_attr (pipe w2)) hess_callback\<rparr>\<rparr>
      in case pipe_call dataset 1 of
           Inl e \<Rightarrow> (Inl e, w3)
         | Inr it \<Rightarrow>
             (case list_of_iterator ev it w3 of
                (Inl e, w4) \<Rightarrow> (Inl e, w4)
              | (Inr predicted, w4) \<Rightarrow> (get_hessian (store w4 hess_callback), w4)))"

text \<open>The curvature sample of one dataset item run alone: the class's forward computation with
  gradient tracking enabled, then the curvature formula on the logits.\<close>

definition item_sample :: "('i, 'x) env \<Rightarrow> nn_Module \<Rightarrow> 'i \<Rightarrow> error + tensor list" where
  "item_sample ev m x =
     (case class_forward ev m [x] True of
        Inl e \<Rightarrow> Inl e
      | Inr out \<Rightarrow>
          (case logits out of
             None \<Rightarrow> Inl AttributeError
           | Some lg \<Rightarrow> hess ev m lg))"

text \<open>The world after the first four statements of \<open>fisher_matrix\<close>: the callback object is
  allocated and both attributes of the pipeline are replaced.\<close>

definition instrumented :: "world \<Rightarrow> world" where
  "instrumented w =
     w\<lparr>store := (store w)(next_addr w := HessianCallback_init (pipe_model (pipe w))),
       next_addr := next_addr w + 1,
       pipe := (pipe w)\<lparr>get_inference_context := select_enable_grad,
                        forward_attr := callback_forward (forward_attr (pipe w)) (next_addr w)\<rparr>\<rparr>"

section \<open>Example inputs\<close>

text \<open>A procedure and a callback over a world that is one counter; a model with one parameter
  of shape \<open>(2,)\<close>; a curvature formula that needs a live gradient graph and raises on zero
  logits; a forward computation whose logits are attached exactly when gradient tracking is
  enabled; and a pipeline that nobody has patched.\<close>

definition example_func :: "unit \<Rightarrow> nat \<Rightarrow> (nat, nat) action" where
  "example_func self args w = (Inr (args + 10), w)"

definition example_callback :: "nat \<Rightarrow> (nat, nat) action" where
  "example_callback out w = (Inr (2 * out), w + out)"

definition example_model :: nn_Module where
  "example_model = \<lparr>trainable_parameters = [(''b'', [2])]\<rparr>"

definition example_hess :: "nn_Module \<Rightarrow> tensor \<Rightarrow> error + tensor list" where
  "example_hess m t =
     (if \<not> requires_grad t then Inl (OtherError ''no graph'')
      else if elems t = [0, 0] then Inl (OtherError ''degenerate'')
      else Inr [\<lparr>shape = [2], elems = elems t, requires_grad = False\<rparr>])"

definition example_forward :: "nn_Module \<Rightarrow> nat list \<Rightarrow> bool \<Rightarrow> error + nat ModelOutput" where
  "example_forward m inputs grad =
     Inr \<lparr>logits = Some \<lparr>shape = [2],
                          elems = [real (sum_list inputs), real (sum_list inputs)],
                          requires_grad = grad\<rparr>,
          other_fields = length inputs\<rparr>"

definition example_env :: "(nat, nat) env" where
  "example_env = \<lparr>hess = example_hess, class_forward = example_forward\<rparr>"

definition example_world :: world where
  "example_world =
     \<lparr>pipe = \<lparr>pipe_model = example_model, get_inference_context = class_inference_context,
              forward_attr = class_forward_method\<rparr>,
      store = (\<lambda>a. HessianCallback_init example_model),
      next_addr = 0,
      grad_enabled = False\<rparr>"

definition example_outputs :: "nat ModelOutput" where
  "example_outputs =
     \<lparr>logits = Some \<lparr>shape = [2], elems = [1, 3], requires_grad = True\<rparr>, other_fields = 7\<rparr>"

section \<open>The accumulator\<close>

lemma add_sample_num_samples:
  "num_samples (snd (add_sample s self)) = num_samples self + 1"
  by (simp add: add_sample_def Let_def split: sum.splits)

lemma add_samples_all_num_samples:
  "num_samples (add_samples_all ss self) = num_samples self + int (length ss)"
  by (induction ss arbitrary: self) (simp_all add: add_sample_num_samples)

text \<open>
  C1. When \<open>num_samples\<close> is 0, \<open>get_hessian\<close> raises \<open>ZeroDivisionError\<close>, an
  \<open>ArithmeticError\<close>; it returns no matrix. This is so for a freshly constructed callback, and
  \<open>fisher_matrix\<close> on an empty dataset surfaces the same error to its caller. The error comes
  from the division of the flattened matrix, modelled from the specification.
\<close>

theorem get_hessian_zero_samples:
  "(num_samples self = 0 \<longrightarrow> get_hessian self = Inl ZeroDivisionError)
   \<and> is_ArithmeticError ZeroDivisionError
   \<and> get_hessian (HessianCallback_init m) = Inl ZeroDivisionError
   \<and> fst (fisher_matrix ev [] w) = Inl ZeroDivisionError"
  by (simp add: get_hessian_def truediv_def HessianCallback_init_def fisher_matrix_def
      pipe_call_def batches.simps Let_def)

theorem get_hessian_zero_samples_witness:
  "num_samples \<lparr>model = \<lparr>trainable_parameters = [(''w'', [2])]\<rparr>,
                 arch = [(''w'', [2])], hessian = [0, 0], num_samples = 0\<rparr> = 0
   \<and> get_hessian \<lparr>model = \<lparr>trainable_parameters = [(''w'', [2])]\<rparr>,
                 arch = [(''w'', [2])], hessian = [0, 0], num_samples = 0\<rparr>
       = Inl ZeroDivisionError"
  using get_hessian_zero_samples
    [where self = "\<lparr>model = \<lparr>trainable_parameters = [(''w'', [2])]\<rparr>,
                 arch = [(''w'', [2])], hessian = [0, 0], num_samples = 0\<rparr>", THEN conjunct1]
  by simp

text \<open>
  C7. A freshly constructed callback has \<open>num_samples = 0\<close> and the zero matrix of the model's
  parameter structure as running sum. Every \<open>add_sample\<close> call increments \<open>num_samples\<close> by
  exactly 1; on a tensor list that matches the parameter structure it returns normally and
  adds the flattened tensors element-wise into the running sum. After any sequence of calls on
  a fresh callback, \<open>num_samples\<close> is the number of calls made.
\<close>

theorem accumulator_counts_folds:
  "num_samples (HessianCallback_init m) = 0
   \<and> hessian (HessianCallback_init m) = zeros (ArchitectureTensor m)
   \<and> hessian (HessianCallback_init m) = replicate (total_numel (trainable_parameters m)) 0
   \<and> num_samples (snd (add_sample s self)) = num_samples self + 1
   \<and> (matches (arch self) s \<longrightarrow>
        fst (add_sample s self) = Inr ()
        \<and> hessian (snd (add_sample s self)) = map2 (+) (hessian self) (flatten s))
   \<and> num_samples (add_samples_all ss (HessianCallback_init m)) = int (length ss)"
  by (simp add: add_samples_all_num_samples add_sample_num_samples)
     (simp add: HessianCallback_init_def add_sample_def to_tensor_def iadd_def zeros_def
       ArchitectureTensor_def Let_def)

theorem accumulator_counts_folds_witness:
  "matches [(''w'', [2])] [\<lparr>shape = [2], elems = [1, 3], requires_grad = False\<rparr>]
   \<and> fst (add_sample [\<lparr>shape = [2], elems = [1, 3], requires_grad = False\<rparr>]
        \<lparr>model = \<lparr>trainable_parameters = [(''w'', [2])]\<rparr>,
         arch = [(''w'', [2])], hessian = [10, 20], num_samples = 4\<rparr>) = Inr ()
   \<and> hessian (snd (add_sample [\<lparr>shape = [2], elems = [1, 3], requires_grad = False\<rparr>]
        \<lparr>model = \<lparr>trainable_parameters = [(''w'', [2])]\<rparr>,
         arch = [(''w'', [2])], hessian = [10, 20], num_samples = 4\<rparr>)) = [11, 23]
   \<and> num_samples (snd (add_sample [\<lparr>shape = [2], elems = [1, 3], requires_grad = False\<rparr>]
        \<lparr>model = \<lparr>trainable_parameters = [(''w'', [2])]\<rparr>,
         arch = [(''w'', [2])], hessian = [10, 20], num_samples = 4\<rparr>)) = 5"
  using accumulator_counts_folds
    [where s = "[\<lparr>shape = [2], elems = [1, 3], requires_grad = False\<rparr>]"
       and self = "\<lparr>model = \<lparr>trainable_parameters = [(''w'', [2])]\<rparr>,
         arch = [(''w'', [2])], hessian = [10, 20], num_samples = 4\<rparr>"
       and ss = "[]" and m = "\<lparr>trainable_parameters = []\<rparr>"]
  by (simp add: matches_def numel_def flatten_def)

lemma matches_flatten_length:
  "matches a ts \<Longrightarrow> length (flatten ts) = total_numel a"
proof -
  assume m: "matches a ts"
  have "list_all (\<lambda>t. length (elems t) = numel (shape t)) ts"
    using m by (simp add: matches_def)
  then have "map length (map elems ts) = map numel (map shape ts)"
    by (induction ts) simp_all
  moreover have "map shape ts = map snd a"
    using m by (simp add: matches_def)
  ultimately show ?thesis
    by (simp add: flatten_def length_concat total_numel_def comp_def)
qed

lemma add_samples_valid:
  "\<forall>s\<in>set ss. matches (arch self) s \<Longrightarrow>
   add_samples ss self =
     (Inr (), self\<lparr>num_samples := num_samples self + int (length ss),
                  hessian := foldl iadd (hessian self) (map flatten ss)\<rparr>)"
proof (induction ss arbitrary: self)
  case Nil
  then show ?case by simp
next
  case (Cons s ss)
  have step: "add_sample s self =
      (Inr (), self\<lparr>num_samples := num_samples self + 1,
                   hessian := iadd (hessian self) (flatten s)\<rparr>)"
    using Cons.prems by (simp add: add_sample_def to_tensor_def Let_def)
  show ?case
    using Cons.prems by (simp add: step Cons.IH)
qed

lemma foldl_iadd_nth:
  "\<forall>v\<in>set vs. length v = n \<Longrightarrow> length h = n \<Longrightarrow>
   foldl iadd h vs = map (\<lambda>i. h ! i + sum_list (map (\<lambda>v. v ! i) vs)) [0..<n]"
proof (induction vs arbitrary: h)
  case Nil
  then show ?case using map_nth[of h] by auto
next
  case (Cons v vs)
  have len: "length (iadd h v) = n"
    using Cons.prems by (simp add: iadd_def)
  have nth: "\<And>i. i < n \<Longrightarrow> iadd h v ! i = h ! i + v ! i"
    using Cons.prems by (simp add: iadd_def)
  have "foldl iadd (iadd h v) vs =
      map (\<lambda>i. iadd h v ! i + sum_list (map (\<lambda>v. v ! i) vs)) [0..<n]"
    using Cons.prems len by (intro Cons.IH) simp_all
  also have "\<dots> = map (\<lambda>i. h ! i + sum_list (map (\<lambda>v. v ! i) (v # vs))) [0..<n]"
    by (rule map_cong) (simp_all add: nth add.assoc)
  finally show ?case by simp
qed

lemma get_hessian_mean:
  assumes "ss \<noteq> []" and "\<forall>s\<in>set ss. matches (ArchitectureTensor m) s"
  shows "get_hessian (snd (add_samples ss (HessianCallback_init m))) =
           Inr (elementwise_mean (total_numel (ArchitectureTensor m)) (map flatten ss))"
proof -
  let ?n = "total_numel (ArchitectureTensor m)"
  have a: "arch (HessianCallback_init m) = ArchitectureTensor m"
    by (simp add: HessianCallback_init_def)
  have lens: "\<forall>v\<in>set (map flatten ss). length v = ?n"
    using assms(2) by (auto simp: matches_flatten_length)
  have fold: "foldl iadd (zeros (ArchitectureTensor m)) (map flatten ss) =
      map (\<lambda>i. zeros (ArchitectureTensor m) ! i + sum_list (map (\<lambda>v. v ! i) (map flatten ss))) [0..<?n]"
    by (rule foldl_iadd_nth[OF lens]) (simp add: zeros_def)
  have fold0: "foldl iadd (zeros (ArchitectureTensor m)) (map flatten ss) =
      map (\<lambda>i. sum_list (map (\<lambda>v. v ! i) (map flatten ss))) [0..<?n]"
    unfolding fold by (rule map_cong) (simp_all add: zeros_def)
  have run: "add_samples ss (HessianCallback_init m) =
      (Inr (), (HessianCallback_init m)\<lparr>num_samples := int (length ss),
         hessian := foldl iadd (zeros (ArchitectureTensor m)) (map flatten ss)\<rparr>)"
    using add_samples_valid[of ss "HessianCallback_init m"] assms(2)
    by (simp add: a) (simp add: HessianCallback_init_def)
  show ?thesis
    using assms(1)
    by (simp add: run get_hessian_def truediv_def fold0 elementwise_mean_def comp_def)
qed

lemma elementwise_mean_mset:
  assumes "mset vs' = mset vs"
  shows "elementwise_mean n vs' = elementwise_mean n vs"
proof -
  have len: "length vs' = length vs"
    using assms by (rule mset_eq_length)
  have "\<And>i. sum_list (map (\<lambda>v. v ! i) vs') = sum_list (map (\<lambda>v. v ! i) vs)"
  proof -
    fix i
    have "mset (map (\<lambda>v. v ! i) vs') = mset (map (\<lambda>v. v ! i) vs)"
      using assms by simp
    then show "sum_list (map (\<lambda>v. v ! i) vs') = sum_list (map (\<lambda>v. v ! i) vs)"
      by (metis sum_mset_sum_list)
  qed
  then show ?thesis
    by (simp add: elementwise_mean_def len)
qed

text \<open>
  C2. For every non-empty sequence of tensor lists that match the parameter structure, folded
  into a fresh callback with \<open>add_sample\<close>, every fold returns normally, \<open>get_hessian\<close>
  returns the element-wise mean of the flattened tensors, and folding any permutation of the
  sequence gives the same result. (Tensor elements are exact reals.)
\<close>

theorem get_hessian_is_mean:
  assumes "ss \<noteq> []" and "\<forall>s\<in>set ss. matches (ArchitectureTensor m) s"
    and "mset ss' = mset ss"
  shows "fst (add_samples ss (HessianCallback_init m)) = Inr ()
    \<and> get_hessian (snd (add_samples ss (HessianCallback_init m))) =
         Inr (elementwise_mean (total_numel (ArchitectureTensor m)) (map flatten ss))
    \<and> get_hessian (snd (add_samples ss' (HessianCallback_init m))) =
         get_hessian (snd (add_samples ss (HessianCallback_init m)))"
proof -
  have a: "arch (HessianCallback_init m) = ArchitectureTensor m"
    by (simp add: HessianCallback_init_def)
  have ne': "ss' \<noteq> []"
    using assms(1,3) by auto
  have valid': "\<forall>s\<in>set ss'. matches (ArchitectureTensor m) s"
    using assms(2,3) by (metis mset_eq_setD)
  have "mset (map flatten ss') = mset (map flatten ss)"
    using assms(3) by simp
  then have perm: "elementwise_mean (total_numel (ArchitectureTensor m)) (map flatten ss') =
      elementwise_mean (total_numel (ArchitectureTensor m)) (map flatten ss)"
    by (rule elementwise_mean_mset)
  have ok: "fst (add_samples ss (HessianCallback_init m)) = Inr ()"
    using add_samples_valid[of ss "HessianCallback_init m"] assms(2) by (simp add: a)
  show ?thesis
    by (simp add: ok get_hessian_mean[OF assms(1,2)] get_hessian_mean[OF ne' valid'] perm)
qed

theorem get_hessian_is_mean_witness:
  "[[\<lparr>shape = [2], elems = [1, 2], requires_grad = False\<rparr>],
    [\<lparr>shape = [2], elems = [3, 4], requires_grad = False\<rparr>]] \<noteq> []
   \<and> matches (ArchitectureTensor \<lparr>trainable_parameters = [(''b'', [2])]\<rparr>)
        [\<lparr>shape = [2], elems = [1, 2], requires_grad = False\<rparr>]
   \<and> matches (ArchitectureTensor \<lparr>trainable_parameters = [(''b'', [2])]\<rparr>)
        [\<lparr>shape = [2], elems = [3, 4], requires_grad = False\<rparr>]
   \<and> mset [[\<lparr>shape = [2], elems = [3, 4], requires_grad = False\<rparr>],
            [\<lparr>shape = [2], elems = [1, 2], requires_grad = False\<rparr>]]
      = mset [[\<lparr>shape = [2], elems = [1, 2], requires_grad = False\<rparr>],
          [\<lparr>shape = [2], elems = [3, 4], requires_grad = False\<rparr>]]
   \<and> get_hessian (snd (add_samples
         [[\<lparr>shape = [2], elems = [1, 2], requires_grad = False\<rparr>],
          [\<lparr>shape = [2], elems = [3, 4], requires_grad = False\<rparr>]]
         (HessianCallback_init \<lparr>trainable_parameters = [(''b'', [2])]\<rparr>))) = Inr [2, 3]
   \<and> get_hessian (snd (add_samples
         [[\<lparr>shape = [2], elems = [3, 4], requires_grad = False\<rparr>],
          [\<lparr>shape = [2], elems = [1, 2], requires_grad = False\<rparr>]]
         (HessianCallback_init \<lparr>trainable_parameters = [(''b'', [2])]\<rparr>))) = Inr [2, 3]"
proof -
  let ?s1 = "[\<lparr>shape = [2], elems = [1::real, 2], requires_grad = False\<rparr>]"
  let ?s2 = "[\<lparr>shape = [2], elems = [3::real, 4], requires_grad = False\<rparr>]"
  let ?m = "\<lparr>trainable_parameters = [(''b'', [2::nat])]\<rparr>"
  have h1: "[?s1, ?s2] \<noteq> []" by simp
  have m1: "matches (ArchitectureTensor ?m) ?s1"
    by (simp add: matches_def ArchitectureTensor_def numel_def)
  have m2: "matches (ArchitectureTensor ?m) ?s2"
    by (simp add: matches_def ArchitectureTensor_def numel_def)
  have h2: "\<forall>s\<in>set [?s1, ?s2]. matches (ArchitectureTensor ?m) s"
    using m1 m2 by simp
  have h3: "mset [?s2, ?s1] = mset [?s1, ?s2]" by simp
  have n: "[0..<2] = [0, Suc 0]"
    by (simp add: upt_rec)
  have mean: "elementwise_mean (total_numel (ArchitectureTensor ?m)) (map flatten [?s1, ?s2])
      = [2, 3]"
    by (simp add: elementwise_mean_def total_numel_def ArchitectureTensor_def numel_def
        flatten_def n)
  note T = get_hessian_is_mean[OF h1 h2 h3]
  have r1: "get_hessian (snd (add_samples [?s1, ?s2] (HessianCallback_init ?m))) = Inr [2, 3]"
    using T[THEN conjunct2, THEN conjunct1] unfolding mean .
  have r2: "get_hessian (snd (add_samples [?s2, ?s1] (HessianCallback_init ?m))) = Inr [2, 3]"
    using T[THEN conjunct2, THEN conjunct2] r1 by (simp only:)
  show ?thesis
    by (intro conjI h1 m1 m2 h3 r1 r2)
qed

section \<open>add_callback\<close>

lemma traced_step:
  "add_callback (BoundMethod obj (traced_func f)) (traced_callback cb) self a (w, tr)
     = (Inr out', (w2, tr2)) \<Longrightarrow>
   \<exists>out. tr2 = tr @ [ForwardReturned a out, CallbackCalled out]"
  by (auto simp: add_callback_def traced_func_def traced_callback_def
      split: prod.splits sum.splits)

lemma traced_run:
  "run_calls (add_callback (BoundMethod obj (traced_func f)) (traced_callback cb)) self argss
     (w, tr) = (Inr outs, (w', tr')) \<Longrightarrow>
   length outs = length argss \<and>
   (\<exists>fouts. length fouts = length argss \<and>
      tr' = tr @ concat (map2 (\<lambda>a out. [ForwardReturned a out, CallbackCalled out]) argss fouts))"
proof (induction argss arbitrary: w tr outs)
  case Nil
  then show ?case by simp
next
  case (Cons a as)
  let ?g = "add_callback (BoundMethod obj (traced_func f)) (traced_callback cb)"
  from Cons.prems obtain out1 w1 tr1 outs1 where
    first: "?g self a (w, tr) = (Inr out1, (w1, tr1))" and
    rest: "run_calls ?g self as (w1, tr1) = (Inr outs1, (w', tr'))" and
    outs: "outs = out1 # outs1"
    by (auto split: prod.splits sum.splits)
  from traced_step[OF first] obtain out where
    tr1: "tr1 = tr @ [ForwardReturned a out, CallbackCalled out]" by blast
  from Cons.IH[OF rest] obtain fouts where
    l: "length outs1 = length as" "length fouts = length as" and
    tr': "tr' = tr1 @ concat (map2 (\<lambda>a out. [ForwardReturned a out, CallbackCalled out]) as fouts)"
    by blast
  have lf: "length (out # fouts) = length (a # as)" using l by simp
  have lo: "length outs = length (a # as)" using outs l by simp
  have "tr' = tr @ concat (map2 (\<lambda>a out. [ForwardReturned a out, CallbackCalled out])
      (a # as) (out # fouts))"
    by (simp add: tr' tr1)
  with lf lo show ?case by blast
qed

lemma count_callbacks:
  "length fouts = length argss \<Longrightarrow>
   length (filter is_CallbackCalled
     (concat (map2 (\<lambda>a out. [ForwardReturned a out, CallbackCalled out]) argss fouts)))
   = length argss"
  by (induction fouts argss rule: list_induct2) simp_all

text \<open>
  C3. A call of the procedure that \<open>add_callback\<close> makes from a bound method calls the
  method's function with the same arguments, calls the callback on the outputs it returned,
  and returns the outputs as the callback left them. In a run of N calls that all return, the
  trace is, call by call and in call order, the function returning and then the callback
  called on what it returned: the callback is called exactly N times.
\<close>

theorem add_callback_calls:
  "(f self args w = (Inr out, w1) \<and> cb out w1 = (Inr out', w2) \<longrightarrow>
      add_callback (BoundMethod obj f) cb self args w = (Inr out', w2))
   \<and> (run_calls (add_callback (BoundMethod obj (traced_func f)) (traced_callback cb)) self argss
         (w, tr) = (Inr outs, (w', tr')) \<longrightarrow>
       length outs = length argss
       \<and> (\<exists>fouts. length fouts = length argss \<and>
            tr' = tr @ concat (map2 (\<lambda>a out. [ForwardReturned a out, CallbackCalled out])
                                argss fouts))
       \<and> length (filter is_CallbackCalled tr')
           = length (filter is_CallbackCalled tr) + length argss)"
proof (intro conjI impI)
  assume "f self args w = (Inr out, w1) \<and> cb out w1 = (Inr out', w2)"
  then show "add_callback (BoundMethod obj f) cb self args w = (Inr out', w2)"
    by (simp add: add_callback_def)
next
  assume r: "run_calls (add_callback (BoundMethod obj (traced_func f)) (traced_callback cb))
    self argss (w, tr) = (Inr outs, (w', tr'))"
  from traced_run[OF r] show "length outs = length argss" by blast
  from traced_run[OF r] show "\<exists>fouts. length fouts = length argss \<and>
            tr' = tr @ concat (map2 (\<lambda>a out. [ForwardReturned a out, CallbackCalled out])
                                argss fouts)" by blast
  from traced_run[OF r] obtain fouts where "length fouts = length argss"
    "tr' = tr @ concat (map2 (\<lambda>a out. [ForwardReturned a out, CallbackCalled out]) argss fouts)"
    by blast
  then show "length (filter is_CallbackCalled tr')
           = length (filter is_CallbackCalled tr) + length argss"
    by (simp add: count_callbacks)
qed

theorem add_callback_calls_witness:
  "example_func () 1 0 = (Inr 11, 0) \<and> example_callback 11 0 = (Inr 22, 11)
   \<and> add_callback (BoundMethod () example_func) example_callback () 1 0 = (Inr 22, 11)
   \<and> run_calls (add_callback (BoundMethod () (traced_func example_func))
         (traced_callback example_callback)) () [1, 2, 3] (0, [])
       = (Inr [22, 24, 26],
          (36, [ForwardReturned 1 11, CallbackCalled 11, ForwardReturned 2 12, CallbackCalled 12,
                ForwardReturned 3 13, CallbackCalled 13]))
   \<and> length (filter is_CallbackCalled
        [ForwardReturned (1::nat) (11::nat), CallbackCalled 11, ForwardReturned 2 12,
         CallbackCalled 12, ForwardReturned 3 13, CallbackCalled 13])
      = length (filter is_CallbackCalled ([] :: (nat, nat) event list)) + length [1::nat, 2, 3]"
proof -
  have h1: "example_func () 1 0 = (Inr 11, 0) \<and> example_callback 11 0 = (Inr 22, 11)"
    by (simp add: example_func_def example_callback_def)
  have h2: "run_calls (add_callback (BoundMethod () (traced_func example_func))
         (traced_callback example_callback)) () [1, 2, 3] (0, [])
       = (Inr [22, 24, 26],
          (36, [ForwardReturned 1 11, CallbackCalled 11, ForwardReturned 2 12, CallbackCalled 12,
                ForwardReturned 3 13, CallbackCalled 13]))"
    by (simp add: add_callback_def traced_func_def traced_callback_def example_func_def
        example_callback_def)
  note T = add_callback_calls[where f = example_func and cb = example_callback and self = "()"
      and obj = "()" and args = 1 and w = 0 and out = 11 and ?w1.0 = 0 and out' = 22
      and ?w2.0 = 11 and argss = "[1, 2, 3]" and tr = "[]" and outs = "[22, 24, 26]"
      and w' = 36
      and tr' = "[ForwardReturned 1 11, CallbackCalled 11, ForwardReturned 2 12,
                  CallbackCalled 12, ForwardReturned 3 13, CallbackCalled 13]"]
  from T[THEN conjunct1, rule_format, OF h1]
  have c1: "add_callback (BoundMethod () example_func) example_callback () 1 0 = (Inr 22, 11)" .
  from T[THEN conjunct2, rule_format, OF h2]
  have c2: "length (filter is_CallbackCalled
        [ForwardReturned (1::nat) (11::nat), CallbackCalled 11, ForwardReturned 2 12,
         CallbackCalled 12, ForwardReturned 3 13, CallbackCalled 13])
      = length (filter is_CallbackCalled ([] :: (nat, nat) event list)) + length [1::nat, 2, 3]"
    by blast
  show ?thesis
    using h1 h2 c1 c2 by blast
qed

text \<open>
  C5 (as the code has it). The procedure that \<open>add_callback\<close> makes works around a bound
  method only. Around a plain function every call raises \<open>AttributeError\<close> and calls neither
  the function nor the callback. Around a bound method the call passes its own \<open>self\<close> and
  the argument bundle, of any shape, unchanged to the method's function, and then hands the
  outputs to the callback.
\<close>

theorem add_callback_bound_only:
  "add_callback (Function g) cb self args w = (Inl AttributeError, w)
   \<and> add_callback (BoundMethod obj f) cb self args w =
       (case f self args w of
          (Inl e, w1) \<Rightarrow> (Inl e, w1)
        | (Inr outputs, w1) \<Rightarrow> cb outputs w1)"
  by (auto simp: add_callback_def split: prod.splits sum.splits)

text \<open>C5 as stated fails: around an unbound function that returns, the call raises.\<close>

theorem add_callback_unbound_counterexample:
  "example_func () 1 0 = (Inr 11, 0)
   \<and> add_callback (Function example_func) example_callback () 1 0 = (Inl AttributeError, 0)"
  by (simp add: add_callback_def example_func_def)

section \<open>The callback\<close>

lemma HessianCallback_call_cases:
  "HessianCallback_call ev outputs self = (r, outputs', self') \<Longrightarrow>
   (r \<noteq> Inr () \<and> outputs' = outputs)
   \<or> (\<exists>lg H. r = Inr () \<and> logits outputs = Some lg \<and> hess ev (model self) lg = Inr H
        \<and> add_sample H self = (Inr (), self')
        \<and> outputs' = outputs\<lparr>logits := Some (detach lg)\<rparr>)"
  by (auto simp: HessianCallback_call_def split: option.splits sum.splits prod.splits)

lemma example_call:
  "HessianCallback_call example_env example_outputs (HessianCallback_init example_model) =
     (Inr (),
      \<lparr>logits = Some \<lparr>shape = [2], elems = [1, 3], requires_grad = False\<rparr>, other_fields = 7\<rparr>,
      \<lparr>model = example_model, arch = [(''b'', [2])], hessian = [1, 3], num_samples = 1\<rparr>)"
  by (simp add: HessianCallback_call_def example_env_def example_outputs_def example_hess_def
      HessianCallback_init_def example_model_def add_sample_def to_tensor_def matches_def
      ArchitectureTensor_def numel_def flatten_def iadd_def zeros_def total_numel_def detach_def
      Let_def numeral_2_eq_2)

lemma example_invoke:
  "fst (invoke_forward example_env (callback_forward class_forward_method 0) () [2]
     (example_world\<lparr>grad_enabled := True\<rparr>)) =
   Inr \<lparr>logits = Some \<lparr>shape = [2], elems = [2, 2], requires_grad = False\<rparr>, other_fields = 1\<rparr>"
  by (simp add: add_callback_def callback_at_def example_world_def
      HessianCallback_call_def example_env_def example_forward_def example_hess_def
      HessianCallback_init_def example_model_def add_sample_def to_tensor_def matches_def
      ArchitectureTensor_def numel_def flatten_def iadd_def zeros_def total_numel_def detach_def
      Let_def numeral_2_eq_2)

text \<open>
  C4. A call of the callback on an outputs object leaves every field but \<open>logits\<close> as it was.
  When the call returns, \<open>logits\<close> is the detached tensor, with the shape and the elements of
  the one that came in and no link to the gradient graph; when it raises, the object is
  untouched. So what the wrapped \<open>_forward\<close> returns is what the class's \<open>_forward\<close> returned,
  with \<open>logits\<close> detached.
\<close>

theorem callback_changes_only_logits:
  "(HessianCallback_call ev outputs self = (r, outputs', self') \<longrightarrow>
      other_fields outputs' = other_fields outputs
      \<and> (r = Inr () \<longrightarrow>
           (\<exists>lg. logits outputs = Some lg \<and> logits outputs' = Some (detach lg)
                \<and> elems (detach lg) = elems lg \<and> shape (detach lg) = shape lg
                \<and> \<not> requires_grad (detach lg)))
      \<and> (r \<noteq> Inr () \<longrightarrow> outputs' = outputs))
   \<and> (invoke_forward ev (callback_forward class_forward_method a) () inputs w
         = (Inr returned, w') \<longrightarrow>
       (\<exists>out lg. class_forward ev (pipe_model (pipe w)) inputs (grad_enabled w) = Inr out
          \<and> logits out = Some lg
          \<and> returned = out\<lparr>logits := Some (detach lg)\<rparr>
          \<and> other_fields returned = other_fields out))"
proof (intro conjI impI)
  assume c: "HessianCallback_call ev outputs self = (r, outputs', self')"
  from HessianCallback_call_cases[OF c]
  show "other_fields outputs' = other_fields outputs" by auto
  {
    assume "r = Inr ()"
    with HessianCallback_call_cases[OF c]
    show "\<exists>lg. logits outputs = Some lg \<and> logits outputs' = Some (detach lg)
                \<and> elems (detach lg) = elems lg \<and> shape (detach lg) = shape lg
                \<and> \<not> requires_grad (detach lg)"
      by (auto simp: detach_def)
  }
  {
    assume "r \<noteq> Inr ()"
    with HessianCallback_call_cases[OF c] show "outputs' = outputs" by auto
  }
next
  assume i: "invoke_forward ev (callback_forward class_forward_method a) () inputs w
         = (Inr returned, w')"
  then obtain out where
    f: "class_forward ev (pipe_model (pipe w)) inputs (grad_enabled w) = Inr out" and
    cb: "callback_at ev a out w = (Inr returned, w')"
    by (auto simp: add_callback_def split: sum.splits prod.splits)
  from cb obtain self' where
    "HessianCallback_call ev out (store w a) = (Inr (), returned, self')"
    by (auto simp: callback_at_def split: sum.splits prod.splits)
  from HessianCallback_call_cases[OF this] obtain lg where
    "logits out = Some lg" "returned = out\<lparr>logits := Some (detach lg)\<rparr>"
    by auto
  with f show "\<exists>out lg. class_forward ev (pipe_model (pipe w)) inputs (grad_enabled w) = Inr out
          \<and> logits out = Some lg
          \<and> returned = out\<lparr>logits := Some (detach lg)\<rparr>
          \<and> other_fields returned = other_fields out"
    by auto
qed

theorem callback_changes_only_logits_witness:
  "HessianCallback_call example_env example_outputs (HessianCallback_init example_model) =
     (Inr (),
      \<lparr>logits = Some \<lparr>shape = [2], elems = [1, 3], requires_grad = False\<rparr>, other_fields = 7\<rparr>,
      \<lparr>model = example_model, arch = [(''b'', [2])], hessian = [1, 3], num_samples = 1\<rparr>)
   \<and> other_fields \<lparr>logits = Some \<lparr>shape = [2], elems = [1, 3], requires_grad = False\<rparr>,
                     other_fields = 7::nat\<rparr> = other_fields example_outputs
   \<and> fst (invoke_forward example_env (callback_forward class_forward_method 0) () [2]
          (example_world\<lparr>grad_enabled := True\<rparr>)) =
       Inr \<lparr>logits = Some \<lparr>shape = [2], elems = [2, 2], requires_grad = False\<rparr>,
            other_fields = 1\<rparr>
   \<and> class_forward example_env (pipe_model (pipe (example_world\<lparr>grad_enabled := True\<rparr>))) [2]
         (grad_enabled (example_world\<lparr>grad_enabled := True\<rparr>)) =
       Inr \<lparr>logits = Some \<lparr>shape = [2], elems = [2, 2], requires_grad = True\<rparr>,
            other_fields = 1\<rparr>"
proof -
  let ?w = "example_world\<lparr>grad_enabled := True\<rparr>"
  let ?R = "\<lparr>logits = Some \<lparr>shape = [2], elems = [2, 2], requires_grad = False\<rparr>,
            other_fields = 1::nat\<rparr>"
  let ?i = "invoke_forward example_env (callback_forward class_forward_method 0) () [2] ?w"
  have h2: "?i = (Inr ?R, snd ?i)"
    using example_invoke by (simp add: prod_eq_iff)
  note T = callback_changes_only_logits[where ev = example_env and outputs = example_outputs
      and self = "HessianCallback_init example_model" and r = "Inr ()"
      and outputs' = "\<lparr>logits = Some \<lparr>shape = [2], elems = [1, 3], requires_grad = False\<rparr>,
                       other_fields = 7\<rparr>"
      and self' = "\<lparr>model = example_model, arch = [(''b'', [2])], hessian = [1, 3],
                     num_samples = 1\<rparr>"
      and a = 0 and inputs = "[2]" and w = ?w and returned = ?R and w' = "snd ?i"]
  from T[THEN conjunct1, rule_format, OF example_call]
  have c1: "other_fields \<lparr>logits = Some \<lparr>shape = [2], elems = [1, 3], requires_grad = False\<rparr>,
                     other_fields = 7::nat\<rparr> = other_fields example_outputs"
    by blast
  from T[THEN conjunct2, rule_format, OF h2]
  have c2: "class_forward example_env (pipe_model (pipe ?w)) [2] (grad_enabled ?w) =
       Inr \<lparr>logits = Some \<lparr>shape = [2], elems = [2, 2], requires_grad = True\<rparr>,
            other_fields = 1\<rparr>"
    by (simp add: example_env_def example_forward_def)
  show ?thesis
    by (intro conjI example_call c1 example_invoke c2)
qed

text \<open>
  C8. In a call of the callback on outputs with logits \<open>lg\<close>, the curvature formula is applied
  to \<open>lg\<close> as it came in and to nothing else: the call is the same for any two formulas that
  agree on \<open>lg\<close>, whatever they do on \<open>detach lg\<close>. The logits are detached only when the
  estimate was computed and folded into the accumulator; when the call raises, the logits are
  not detached.
\<close>

theorem estimate_before_detach:
  assumes "logits outputs = Some lg"
    and "HessianCallback_call ev outputs self = (r, outputs', self')"
  shows "(r = Inr () \<longrightarrow>
            (\<exists>H. hess ev (model self) lg = Inr H \<and> add_sample H self = (Inr (), self')
               \<and> outputs' = outputs\<lparr>logits := Some (detach lg)\<rparr>))
         \<and> (r \<noteq> Inr () \<longrightarrow> outputs' = outputs)
         \<and> (hess ev' (model self) lg = hess ev (model self) lg \<longrightarrow>
              HessianCallback_call ev' outputs self = HessianCallback_call ev outputs self)"
  using assms HessianCallback_call_cases[OF assms(2)]
  by (auto simp: HessianCallback_call_def)

theorem estimate_before_detach_witness:
  "logits example_outputs = Some \<lparr>shape = [2], elems = [1, 3], requires_grad = True\<rparr>
   \<and> HessianCallback_call example_env example_outputs (HessianCallback_init example_model) =
     (Inr (),
      \<lparr>logits = Some \<lparr>shape = [2], elems = [1, 3], requires_grad = False\<rparr>, other_fields = 7\<rparr>,
      \<lparr>model = example_model, arch = [(''b'', [2])], hessian = [1, 3], num_samples = 1\<rparr>)
   \<and> hess example_env example_model (detach \<lparr>shape = [2], elems = [1, 3], requires_grad = True\<rparr>)
       = Inl (OtherError ''no graph'')
   \<and> (\<exists>H. hess example_env (model (HessianCallback_init example_model))
              \<lparr>shape = [2], elems = [1, 3], requires_grad = True\<rparr> = Inr H
          \<and> add_sample H (HessianCallback_init example_model) =
              (Inr (), \<lparr>model = example_model, arch = [(''b'', [2])], hessian = [1, 3],
                        num_samples = 1\<rparr>))"
proof -
  let ?lg = "\<lparr>shape = [2], elems = [1::real, 3], requires_grad = True\<rparr>"
  have h1: "logits example_outputs = Some ?lg"
    by (simp add: example_outputs_def)
  have d: "hess example_env example_model (detach ?lg) = Inl (OtherError ''no graph'')"
    by (simp add: example_env_def example_hess_def detach_def)
  from estimate_before_detach[OF h1 example_call, where ev' = example_env,
      THEN conjunct1, rule_format, OF refl]
  have c: "\<exists>H. hess example_env (model (HessianCallback_init example_model)) ?lg = Inr H
          \<and> add_sample H (HessianCallback_init example_model) =
              (Inr (), \<lparr>model = example_model, arch = [(''b'', [2])], hessian = [1, 3],
                        num_samples = 1\<rparr>)"
    by blast
  show ?thesis
    by (intro conjI h1 example_call d c)
qed

section \<open>The driver\<close>

lemma batches_one: "batches (Suc 0) xs = map (\<lambda>x. [x]) xs"
proof (induction xs)
  case Nil
  show ?case by (subst batches.simps) simp
next
  case (Cons x xs)
  show ?case by (subst batches.simps) (simp add: Cons)
qed

lemma pipe_call_one: "pipe_call dataset 1 = Inr (map (\<lambda>x. [x]) dataset)"
  by (simp add: pipe_call_def batches_one)

lemma fisher_matrix_instrumented:
  "fisher_matrix ev dataset w =
     (case list_of_iterator ev (map (\<lambda>x. [x]) dataset) (instrumented w) of
        (Inl e, w4) \<Rightarrow> (Inl e, w4)
      | (Inr predicted, w4) \<Rightarrow> (get_hessian (store w4 (next_addr w)), w4))"
  unfolding fisher_matrix_def Let_def pipe_call_one instrumented_def by simp

lemma callback_at_frame:
  "pipe (snd (callback_at ev a out w)) = pipe w
   \<and> next_addr (snd (callback_at ev a out w)) = next_addr w
   \<and> grad_enabled (snd (callback_at ev a out w)) = grad_enabled w"
  by (simp add: callback_at_def split: prod.splits sum.splits)

lemma invoke_forward_frame:
  "pipe (snd (invoke_forward ev m u b w)) = pipe w
   \<and> next_addr (snd (invoke_forward ev m u b w)) = next_addr w
   \<and> grad_enabled (snd (invoke_forward ev m u b w)) = grad_enabled w"
proof (induction m arbitrary: w b)
  case class_forward_method
  show ?case by simp
next
  case (callback_forward m a)
  show ?case
  proof (cases "invoke_forward ev m u b w")
    case (Pair r w1)
    with callback_forward[of b w] have f1: "pipe w1 = pipe w" "next_addr w1 = next_addr w"
      "grad_enabled w1 = grad_enabled w" by simp_all
    show ?thesis
    proof (cases r)
      case (Inl e)
      with Pair f1 show ?thesis by (simp add: add_callback_def)
    next
      case (Inr out)
      with Pair f1 callback_at_frame[of ev a out w1] show ?thesis
        by (auto simp: add_callback_def split: prod.splits sum.splits)
    qed
  qed
qed

lemma forward_frame:
  "pipe (snd (forward ev b w)) = pipe w
   \<and> next_addr (snd (forward ev b w)) = next_addr w
   \<and> grad_enabled (snd (forward ev b w)) = grad_enabled w"
  using invoke_forward_frame[of ev "forward_attr (pipe w)" "()" b
      "w\<lparr>grad_enabled := enter_context (get_inference_context (pipe w))\<rparr>"]
  by (auto simp: forward_def Let_def split: prod.splits)

lemma list_of_iterator_frame:
  "pipe (snd (list_of_iterator ev bs w)) = pipe w
   \<and> next_addr (snd (list_of_iterator ev bs w)) = next_addr w
   \<and> grad_enabled (snd (list_of_iterator ev bs w)) = grad_enabled w"
proof (induction bs arbitrary: w)
  case Nil
  show ?case by simp
next
  case (Cons b bs)
  show ?case
  proof (cases "forward ev b w")
    case (Pair r w1)
    with forward_frame[of ev b w] have f1: "pipe w1 = pipe w" "next_addr w1 = next_addr w"
      "grad_enabled w1 = grad_enabled w" by simp_all
    show ?thesis
      using Pair f1 Cons[of w1] by (auto split: prod.splits sum.splits)
  qed
qed

lemma fisher_matrix_pipe:
  "pipe (snd (fisher_matrix ev dataset w)) = pipe (instrumented w)"
  using list_of_iterator_frame[of ev "map (\<lambda>x. [x]) dataset" "instrumented w"]
  by (auto simp: fisher_matrix_instrumented split: prod.splits sum.splits)

lemma forward_patched:
  assumes "get_inference_context (pipe w) = select_enable_grad"
    and "forward_attr (pipe w) = callback_forward class_forward_method a"
  shows "forward ev b w =
     (case class_forward ev (pipe_model (pipe w)) b True of
        Inl e \<Rightarrow> (Inl e, w)
      | Inr out \<Rightarrow>
          (case HessianCallback_call ev out (store w a) of
             (Inl e, out', self') \<Rightarrow> (Inl e, w\<lparr>store := (store w)(a := self')\<rparr>)
           | (Inr u, out', self') \<Rightarrow> (Inr out', w\<lparr>store := (store w)(a := self')\<rparr>)))"
  using assms
  by (simp add: forward_def Let_def add_callback_def callback_at_def
      split: prod.splits sum.splits)

lemma add_sample_matches:
  "matches (arch self) H \<Longrightarrow>
   \<exists>self'. add_sample H self = (Inr (), self')
     \<and> model self' = model self \<and> arch self' = arch self"
  by (simp add: add_sample_def to_tensor_def Let_def)

lemma item_sample_Inr:
  "item_sample ev m x = Inr H \<Longrightarrow>
   \<exists>out lg. class_forward ev m [x] True = Inr out \<and> logits out = Some lg \<and> hess ev m lg = Inr H"
  by (auto simp: item_sample_def split: sum.splits option.splits)

lemma forward_item_ok:
  assumes "get_inference_context (pipe w) = select_enable_grad"
    and "forward_attr (pipe w) = callback_forward class_forward_method a"
    and "model (store w a) = pipe_model (pipe w)"
    and "item_sample ev (pipe_model (pipe w)) x = Inr H"
    and "matches (arch (store w a)) H"
  shows "\<exists>out. forward ev [x] w =
           (Inr out, w\<lparr>store := (store w)(a := snd (add_sample H (store w a)))\<rparr>)"
proof -
  from item_sample_Inr[OF assms(4)] obtain out lg where
    f: "class_forward ev (pipe_model (pipe w)) [x] True = Inr out" and
    l: "logits out = Some lg" and h: "hess ev (pipe_model (pipe w)) lg = Inr H"
    by blast
  from add_sample_matches[OF assms(5)] obtain cb1 where
    s: "add_sample H (store w a) = (Inr (), cb1)" by blast
  have "HessianCallback_call ev out (store w a) =
      (Inr (), out\<lparr>logits := Some (detach lg)\<rparr>, cb1)"
    using l h assms(3) by (simp add: HessianCallback_call_def s)
  then show ?thesis
    by (simp add: forward_patched[OF assms(1,2)] f s)
qed

lemma forward_item_hess_raises:
  assumes "get_inference_context (pipe w) = select_enable_grad"
    and "forward_attr (pipe w) = callback_forward class_forward_method a"
    and "model (store w a) = pipe_model (pipe w)"
    and "class_forward ev (pipe_model (pipe w)) [x] True = Inr out"
    and "logits out = Some lg"
    and "hess ev (pipe_model (pipe w)) lg = Inl e"
  shows "forward ev [x] w = (Inl e, w)"
proof -
  have "HessianCallback_call ev out (store w a) = (Inl e, out, store w a)"
    using assms(3,5,6) by (simp add: HessianCallback_call_def)
  then show ?thesis
    by (simp add: forward_patched[OF assms(1,2)] assms(4))
qed

lemma list_of_iterator_ok:
  assumes "get_inference_context (pipe w) = select_enable_grad"
    and "forward_attr (pipe w) = callback_forward class_forward_method a"
    and "model (store w a) = pipe_model (pipe w)"
    and "map (item_sample ev (pipe_model (pipe w))) xs = map Inr Hs"
    and "\<forall>H\<in>set Hs. matches (arch (store w a)) H"
  shows "\<exists>outs. length outs = length xs \<and>
           list_of_iterator ev (map (\<lambda>x. [x]) xs) w =
             (Inr outs, w\<lparr>store := (store w)(a := snd (add_samples Hs (store w a)))\<rparr>)"
  using assms
proof (induction xs arbitrary: w Hs)
  case Nil
  then show ?case by simp
next
  case (Cons x xs)
  from Cons.prems(4) obtain H Hs' where
    Hs: "Hs = H # Hs'" and
    sx: "item_sample ev (pipe_model (pipe w)) x = Inr H" and
    sxs: "map (item_sample ev (pipe_model (pipe w))) xs = map Inr Hs'"
    by (cases Hs) auto
  have mH: "matches (arch (store w a)) H" using Cons.prems(5) Hs by simp
  from add_sample_matches[OF mH] obtain cb1 where
    k: "add_sample H (store w a) = (Inr (), cb1)" "model cb1 = model (store w a)"
       "arch cb1 = arch (store w a)" by blast
  let ?w1 = "w\<lparr>store := (store w)(a := cb1)\<rparr>"
  from forward_item_ok[OF Cons.prems(1,2,3) sx mH] obtain out where
    fw: "forward ev [x] w = (Inr out, ?w1)" by (auto simp: k)
  have p1: "get_inference_context (pipe ?w1) = select_enable_grad"
    using Cons.prems(1) by simp
  have p2: "forward_attr (pipe ?w1) = callback_forward class_forward_method a"
    using Cons.prems(2) by simp
  have p3: "model (store ?w1 a) = pipe_model (pipe ?w1)"
    using Cons.prems(3) k by simp
  have p4: "map (item_sample ev (pipe_model (pipe ?w1))) xs = map Inr Hs'"
    using sxs by simp
  have p5: "\<forall>H\<in>set Hs'. matches (arch (store ?w1 a)) H"
    using Cons.prems(5) Hs k by simp
  from Cons.IH[OF p1 p2 p3 p4 p5] obtain outs where
    lo: "length outs = length xs" and
    rest: "list_of_iterator ev (map (\<lambda>x. [x]) xs) ?w1 =
      (Inr outs, ?w1\<lparr>store := (store ?w1)(a := snd (add_samples Hs' (store ?w1 a)))\<rparr>)"
    by blast
  have run: "add_samples Hs (store w a) = add_samples Hs' cb1"
    unfolding Hs by (simp add: k)
  have fin: "list_of_iterator ev (map (\<lambda>x. [x]) (x # xs)) w =
      (Inr (out # outs), w\<lparr>store := (store w)(a := snd (add_samples Hs (store w a)))\<rparr>)"
    by (simp add: fw rest run)
  have lo': "length (out # outs) = length (x # xs)"
    using lo by simp
  from lo' fin show ?case by blast
qed

lemma list_of_iterator_append:
  "list_of_iterator ev (bs1 @ bs2) w =
     (case list_of_iterator ev bs1 w of
        (Inl e, w1) \<Rightarrow> (Inl e, w1)
      | (Inr outs1, w1) \<Rightarrow>
          (case list_of_iterator ev bs2 w1 of
             (Inl e, w2) \<Rightarrow> (Inl e, w2)
           | (Inr outs2, w2) \<Rightarrow> (Inr (outs1 @ outs2), w2)))"
  by (induction bs1 arbitrary: w) (auto split: prod.splits sum.splits)

lemma instrumented_facts:
  "get_inference_context (pipe (instrumented w)) = select_enable_grad
   \<and> forward_attr (pipe (instrumented w)) = callback_forward (forward_attr (pipe w)) (next_addr w)
   \<and> pipe_model (pipe (instrumented w)) = pipe_model (pipe w)
   \<and> store (instrumented w) (next_addr w) = HessianCallback_init (pipe_model (pipe w))
   \<and> model (HessianCallback_init m) = m
   \<and> arch (HessianCallback_init m) = ArchitectureTensor m"
  by (simp add: instrumented_def HessianCallback_init_def)

lemma run_instrumented:
  assumes fa: "forward_attr (pipe w) = class_forward_method"
    and samples: "map (item_sample ev (pipe_model (pipe w))) xs = map Inr Hs"
    and valid: "\<forall>H\<in>set Hs. matches (ArchitectureTensor (pipe_model (pipe w))) H"
  shows "\<exists>outs. length outs = length xs \<and>
           list_of_iterator ev (map (\<lambda>x. [x]) xs) (instrumented w) =
             (Inr outs, (instrumented w)\<lparr>store := (store (instrumented w))
                (next_addr w := snd (add_samples Hs
                   (HessianCallback_init (pipe_model (pipe w)))))\<rparr>)"
proof -
  note i = instrumented_facts[of w "pipe_model (pipe w)"]
  have p1: "get_inference_context (pipe (instrumented w)) = select_enable_grad"
    using i by blast
  have p2: "forward_attr (pipe (instrumented w)) =
      callback_forward class_forward_method (next_addr w)"
    using i fa by simp
  have st: "store (instrumented w) (next_addr w) = HessianCallback_init (pipe_model (pipe w))"
    using i by blast
  have pm: "pipe_model (pipe (instrumented w)) = pipe_model (pipe w)"
    using i by blast
  have p3: "model (store (instrumented w) (next_addr w)) = pipe_model (pipe (instrumented w))"
    using i by (simp add: st pm)
  have p4: "map (item_sample ev (pipe_model (pipe (instrumented w)))) xs = map Inr Hs"
    using samples by (simp add: pm)
  have p5: "\<forall>H\<in>set Hs. matches (arch (store (instrumented w) (next_addr w))) H"
    using valid i by (simp add: st)
  from list_of_iterator_ok[OF p1 p2 p3 p4 p5] show ?thesis
    by (simp add: st)
qed

lemma num_samples_add_samples:
  assumes "\<forall>H\<in>set Hs. matches (ArchitectureTensor m) H"
  shows "num_samples (snd (add_samples Hs (HessianCallback_init m))) = int (length Hs)"
proof -
  have "\<forall>H\<in>set Hs. matches (arch (HessianCallback_init m)) H"
    using assms by (simp add: HessianCallback_init_def)
  from add_samples_valid[OF this] show ?thesis
    by (simp add: HessianCallback_init_def)
qed

lemmas example_defs = example_env_def example_forward_def example_hess_def example_world_def
  example_model_def

lemma upt_2: "[0..<2] = [0, Suc 0]"
  by (simp add: upt_rec)

lemma example_later_forward:
  "fst (forward example_env [5] (snd (fisher_matrix example_env [1] example_world))) =
     Inr \<lparr>logits = Some \<lparr>shape = [2], elems = [5, 5], requires_grad = False\<rparr>,
          other_fields = 1\<rparr>"
  by (simp add: fisher_matrix_instrumented instrumented_def forward_def add_callback_def
      callback_at_def HessianCallback_call_def HessianCallback_init_def add_sample_def
      to_tensor_def matches_def ArchitectureTensor_def numel_def flatten_def iadd_def
      zeros_def total_numel_def detach_def get_hessian_def truediv_def Let_def
      numeral_2_eq_2 example_defs)

text \<open>
  C9. On a pipeline whose \<open>_forward\<close> is still the class's own, and a dataset whose items
  each yield a curvature sample that matches the parameter structure: the pipeline is called
  with batch size 1, so every forward call gets exactly one dataset item; the iterator is run
  to its end, one prediction per item; and \<open>fisher_matrix\<close> returns \<open>get_hessian\<close> of the
  callback object, which by then has folded one sample per item: the element-wise mean of the
  samples when the dataset is not empty.
\<close>

theorem fisher_matrix_runs_each_item:
  assumes "forward_attr (pipe w) = class_forward_method"
    and "map (item_sample ev (pipe_model (pipe w))) dataset = map Inr Hs"
    and "\<forall>H\<in>set Hs. matches (ArchitectureTensor (pipe_model (pipe w))) H"
  shows "pipe_call dataset 1 = Inr (map (\<lambda>x. [x]) dataset)
    \<and> (\<exists>predicted w4.
          list_of_iterator ev (map (\<lambda>x. [x]) dataset) (instrumented w) = (Inr predicted, w4)
          \<and> length predicted = length dataset
          \<and> fisher_matrix ev dataset w = (get_hessian (store w4 (next_addr w)), w4))
    \<and> store (snd (fisher_matrix ev dataset w)) (next_addr w) =
         snd (add_samples Hs (HessianCallback_init (pipe_model (pipe w))))
    \<and> num_samples (store (snd (fisher_matrix ev dataset w)) (next_addr w)) = int (length dataset)
    \<and> fst (fisher_matrix ev dataset w) =
         get_hessian (snd (add_samples Hs (HessianCallback_init (pipe_model (pipe w)))))
    \<and> (dataset \<noteq> [] \<longrightarrow>
         fst (fisher_matrix ev dataset w) =
           Inr (elementwise_mean (total_numel (ArchitectureTensor (pipe_model (pipe w))))
                  (map flatten Hs)))"
proof -
  let ?m = "pipe_model (pipe w)"
  let ?cb = "snd (add_samples Hs (HessianCallback_init ?m))"
  let ?w4 = "(instrumented w)\<lparr>store := (store (instrumented w))(next_addr w := ?cb)\<rparr>"
  from run_instrumented[OF assms] obtain outs where
    lo: "length outs = length dataset" and
    run: "list_of_iterator ev (map (\<lambda>x. [x]) dataset) (instrumented w) = (Inr outs, ?w4)"
    by blast
  have fm: "fisher_matrix ev dataset w = (get_hessian (store ?w4 (next_addr w)), ?w4)"
    by (simp add: fisher_matrix_instrumented run)
  have len: "length Hs = length dataset"
    using assms(2) by (metis length_map)
  have c1: "pipe_call dataset 1 = Inr (map (\<lambda>x. [x]) dataset)"
    by (rule pipe_call_one)
  have c2: "\<exists>predicted w4.
          list_of_iterator ev (map (\<lambda>x. [x]) dataset) (instrumented w) = (Inr predicted, w4)
          \<and> length predicted = length dataset
          \<and> fisher_matrix ev dataset w = (get_hessian (store w4 (next_addr w)), w4)"
    using run lo fm by blast
  have c3: "store (snd (fisher_matrix ev dataset w)) (next_addr w) = ?cb"
    by (simp add: fm)
  have c4: "num_samples (store (snd (fisher_matrix ev dataset w)) (next_addr w)) =
      int (length dataset)"
    unfolding c3 using num_samples_add_samples[OF assms(3)] len by simp
  have c5: "fst (fisher_matrix ev dataset w) = get_hessian ?cb"
    by (simp add: fm)
  have c6: "dataset \<noteq> [] \<longrightarrow> fst (fisher_matrix ev dataset w) =
           Inr (elementwise_mean (total_numel (ArchitectureTensor ?m)) (map flatten Hs))"
  proof
    assume "dataset \<noteq> []"
    then have "Hs \<noteq> []" using len by auto
    from get_hessian_mean[OF this assms(3)] show "fst (fisher_matrix ev dataset w) =
           Inr (elementwise_mean (total_numel (ArchitectureTensor ?m)) (map flatten Hs))"
      unfolding c5 .
  qed
  show ?thesis
    by (intro conjI c1 c2 c3 c4 c5 c6)
qed

theorem fisher_matrix_runs_each_item_witness:
  "forward_attr (pipe example_world) = class_forward_method
   \<and> map (item_sample example_env (pipe_model (pipe example_world))) [1, 2, 3] =
       map Inr [[\<lparr>shape = [2], elems = [1, 1], requires_grad = False\<rparr>],
                [\<lparr>shape = [2], elems = [2, 2], requires_grad = False\<rparr>],
                [\<lparr>shape = [2], elems = [3, 3], requires_grad = False\<rparr>]]
   \<and> matches (ArchitectureTensor (pipe_model (pipe example_world)))
        [\<lparr>shape = [2], elems = [1, 1], requires_grad = False\<rparr>]
   \<and> matches (ArchitectureTensor (pipe_model (pipe example_world)))
        [\<lparr>shape = [2], elems = [2, 2], requires_grad = False\<rparr>]
   \<and> matches (ArchitectureTensor (pipe_model (pipe example_world)))
        [\<lparr>shape = [2], elems = [3, 3], requires_grad = False\<rparr>]
   \<and> pipe_call [1::nat, 2, 3] 1 = Inr [[1], [2], [3]]
   \<and> fst (fisher_matrix example_env [1, 2, 3] example_world) = Inr [2, 2]
   \<and> num_samples (store (snd (fisher_matrix example_env [1, 2, 3] example_world))
        (next_addr example_world)) = 3"
proof -
  let ?H1 = "[\<lparr>shape = [2], elems = [1::real, 1], requires_grad = False\<rparr>]"
  let ?H2 = "[\<lparr>shape = [2], elems = [2::real, 2], requires_grad = False\<rparr>]"
  let ?H3 = "[\<lparr>shape = [2], elems = [3::real, 3], requires_grad = False\<rparr>]"
  let ?A = "ArchitectureTensor (pipe_model (pipe example_world))"
  have h1: "forward_attr (pipe example_world) = class_forward_method"
    by (simp add: example_world_def)
  have h2: "map (item_sample example_env (pipe_model (pipe example_world))) [1, 2, 3] =
       map Inr [?H1, ?H2, ?H3]"
    by (simp add: item_sample_def example_defs)
  have m1: "matches ?A ?H1" by (simp add: matches_def ArchitectureTensor_def numel_def example_defs)
  have m2: "matches ?A ?H2" by (simp add: matches_def ArchitectureTensor_def numel_def example_defs)
  have m3: "matches ?A ?H3" by (simp add: matches_def ArchitectureTensor_def numel_def example_defs)
  have h3: "\<forall>H\<in>set [?H1, ?H2, ?H3]. matches ?A H"
    using m1 m2 m3 by simp
  note T = fisher_matrix_runs_each_item[OF h1 h2 h3]
  have mean: "elementwise_mean (total_numel ?A) (map flatten [?H1, ?H2, ?H3]) = [2, 2]"
    by (simp add: elementwise_mean_def total_numel_def ArchitectureTensor_def numel_def
        flatten_def upt_2 example_defs)
  have c1: "pipe_call [1::nat, 2, 3] 1 = Inr [[1], [2], [3]]"
    using T[THEN conjunct1] by simp
  have ne: "[1::nat, 2, 3] \<noteq> []" by simp
  have c2: "fst (fisher_matrix example_env [1, 2, 3] example_world) = Inr [2, 2]"
    using T[THEN conjunct2, THEN conjunct2, THEN conjunct2, THEN conjunct2, THEN conjunct2,
        rule_format, OF ne] unfolding mean .
  have c3: "num_samples (store (snd (fisher_matrix example_env [1, 2, 3] example_world))
        (next_addr example_world)) = 3"
    using T[THEN conjunct2, THEN conjunct2, THEN conjunct2, THEN conjunct1] by simp
  show ?thesis
    by (intro conjI h1 h2 m1 m2 m3 c1 c2 c3)
qed

text \<open>
  C6. When the items before \<open>x\<close> each yield a matching curvature sample and the curvature
  formula raises \<open>e\<close> on the logits of \<open>x\<close>, \<open>fisher_matrix\<close> raises \<open>e\<close> and returns no matrix,
  whatever follows \<open>x\<close> in the dataset. The callback object then holds exactly the folds of
  the items before \<open>x\<close>: its counter is their number, and its state is the one that a run on
  those items alone leaves.
\<close>

theorem hess_error_aborts_run:
  assumes "forward_attr (pipe w) = class_forward_method"
    and "map (item_sample ev (pipe_model (pipe w))) pre = map Inr Hs"
    and "\<forall>H\<in>set Hs. matches (ArchitectureTensor (pipe_model (pipe w))) H"
    and "class_forward ev (pipe_model (pipe w)) [x] True = Inr out"
    and "logits out = Some lg"
    and "hess ev (pipe_model (pipe w)) lg = Inl e"
  shows "fst (fisher_matrix ev (pre @ x # post) w) = Inl e
    \<and> store (snd (fisher_matrix ev (pre @ x # post) w)) (next_addr w) =
         snd (add_samples Hs (HessianCallback_init (pipe_model (pipe w))))
    \<and> num_samples (store (snd (fisher_matrix ev (pre @ x # post) w)) (next_addr w)) =
         int (length pre)
    \<and> store (snd (fisher_matrix ev (pre @ x # post) w)) (next_addr w) =
         store (snd (fisher_matrix ev pre w)) (next_addr w)"
proof -
  let ?m = "pipe_model (pipe w)"
  let ?cb = "snd (add_samples Hs (HessianCallback_init ?m))"
  let ?w4 = "(instrumented w)\<lparr>store := (store (instrumented w))(next_addr w := ?cb)\<rparr>"
  from run_instrumented[OF assms(1,2,3)] obtain outs where
    run: "list_of_iterator ev (map (\<lambda>x. [x]) pre) (instrumented w) = (Inr outs, ?w4)"
    by blast
  note i = instrumented_facts[of w ?m]
  have p1: "get_inference_context (pipe ?w4) = select_enable_grad"
    using i by simp
  have p2: "forward_attr (pipe ?w4) = callback_forward class_forward_method (next_addr w)"
    using i assms(1) by simp
  have mcb: "model ?cb = ?m"
  proof -
    have "\<forall>H\<in>set Hs. matches (arch (HessianCallback_init ?m)) H"
      using assms(3) by (simp add: HessianCallback_init_def)
    from add_samples_valid[OF this] show ?thesis
      by (simp add: HessianCallback_init_def)
  qed
  have p3: "model (store ?w4 (next_addr w)) = pipe_model (pipe ?w4)"
    using i mcb by simp
  have p4: "class_forward ev (pipe_model (pipe ?w4)) [x] True = Inr out"
    using i assms(4) by simp
  have p6: "hess ev (pipe_model (pipe ?w4)) lg = Inl e"
    using i assms(6) by simp
  have fail: "forward ev [x] ?w4 = (Inl e, ?w4)"
    by (rule forward_item_hess_raises[OF p1 p2 p3 p4 assms(5) p6])
  have "list_of_iterator ev (map (\<lambda>x. [x]) (pre @ x # post)) (instrumented w) = (Inl e, ?w4)"
    by (simp add: list_of_iterator_append run fail)
  then have fm: "fisher_matrix ev (pre @ x # post) w = (Inl e, ?w4)"
    by (simp add: fisher_matrix_instrumented)
  have fmpre: "snd (fisher_matrix ev pre w) = ?w4"
    by (simp add: fisher_matrix_instrumented run)
  have len: "length Hs = length pre"
    using assms(2) by (metis length_map)
  have c1: "fst (fisher_matrix ev (pre @ x # post) w) = Inl e"
    by (simp add: fm)
  have c2: "store (snd (fisher_matrix ev (pre @ x # post) w)) (next_addr w) = ?cb"
    by (simp add: fm)
  have c3: "num_samples (store (snd (fisher_matrix ev (pre @ x # post) w)) (next_addr w)) =
      int (length pre)"
    unfolding c2 using num_samples_add_samples[OF assms(3)] len by simp
  have c4: "store (snd (fisher_matrix ev (pre @ x # post) w)) (next_addr w) =
      store (snd (fisher_matrix ev pre w)) (next_addr w)"
    unfolding fmpre by (simp add: fm)
  show ?thesis
    by (intro conjI c1 c2 c3 c4)
qed

theorem hess_error_aborts_run_witness:
  "forward_attr (pipe example_world) = class_forward_method
   \<and> map (item_sample example_env (pipe_model (pipe example_world))) [1] =
       map Inr [[\<lparr>shape = [2], elems = [1, 1], requires_grad = False\<rparr>]]
   \<and> matches (ArchitectureTensor (pipe_model (pipe example_world)))
        [\<lparr>shape = [2], elems = [1, 1], requires_grad = False\<rparr>]
   \<and> class_forward example_env (pipe_model (pipe example_world)) [0] True =
       Inr \<lparr>logits = Some \<lparr>shape = [2], elems = [0, 0], requires_grad = True\<rparr>,
            other_fields = 1\<rparr>
   \<and> hess example_env (pipe_model (pipe example_world))
        \<lparr>shape = [2], elems = [0, 0], requires_grad = True\<rparr> = Inl (OtherError ''degenerate'')
   \<and> fst (fisher_matrix example_env [1, 0, 3] example_world) = Inl (OtherError ''degenerate'')
   \<and> num_samples (store (snd (fisher_matrix example_env [1, 0, 3] example_world))
        (next_addr example_world)) = 1
   \<and> hessian (store (snd (fisher_matrix example_env [1, 0, 3] example_world))
        (next_addr example_world)) = [1, 1]"
proof -
  let ?H1 = "[\<lparr>shape = [2], elems = [1::real, 1], requires_grad = False\<rparr>]"
  let ?A = "ArchitectureTensor (pipe_model (pipe example_world))"
  let ?out = "\<lparr>logits = Some \<lparr>shape = [2], elems = [0::real, 0], requires_grad = True\<rparr>,
            other_fields = 1::nat\<rparr>"
  let ?lg = "\<lparr>shape = [2], elems = [0::real, 0], requires_grad = True\<rparr>"
  have h1: "forward_attr (pipe example_world) = class_forward_method"
    by (simp add: example_world_def)
  have h2: "map (item_sample example_env (pipe_model (pipe example_world))) [1] = map Inr [?H1]"
    by (simp add: item_sample_def example_defs)
  have m1: "matches ?A ?H1" by (simp add: matches_def ArchitectureTensor_def numel_def example_defs)
  have h3: "\<forall>H\<in>set [?H1]. matches ?A H"
    using m1 by simp
  have h4: "class_forward example_env (pipe_model (pipe example_world)) [0] True = Inr ?out"
    by (simp add: example_defs)
  have h5: "logits ?out = Some ?lg" by simp
  have h6: "hess example_env (pipe_model (pipe example_world)) ?lg =
      Inl (OtherError ''degenerate'')"
    by (simp add: example_defs)
  note T = hess_error_aborts_run[OF h1 h2 h3 h4 h5 h6, of "[3]"]
  have c1: "fst (fisher_matrix example_env [1, 0, 3] example_world) =
      Inl (OtherError ''degenerate'')"
    using T[THEN conjunct1] by simp
  have c2: "num_samples (store (snd (fisher_matrix example_env [1, 0, 3] example_world))
        (next_addr example_world)) = 1"
    using T[THEN conjunct2, THEN conjunct2, THEN conjunct1] by simp
  have fold: "snd (add_samples [?H1] (HessianCallback_init (pipe_model (pipe example_world)))) =
      \<lparr>model = example_model, arch = [(''b'', [2])], hessian = [1, 1], num_samples = 1\<rparr>"
    by (simp add: add_sample_def to_tensor_def matches_def ArchitectureTensor_def numel_def
        flatten_def iadd_def zeros_def total_numel_def HessianCallback_init_def Let_def
        numeral_2_eq_2 example_defs)
  have c3: "hessian (store (snd (fisher_matrix example_env [1, 0, 3] example_world))
        (next_addr example_world)) = [1, 1]"
  proof -
    have "store (snd (fisher_matrix example_env ([1] @ 0 # [3]) example_world))
        (next_addr example_world) =
      \<lparr>model = example_model, arch = [(''b'', [2])], hessian = [1, 1], num_samples = 1\<rparr>"
      using T[THEN conjunct2, THEN conjunct1] unfolding fold .
    then show ?thesis by simp
  qed
  show ?thesis
    by (intro conjI h1 h2 m1 h4 h6 c1 c2 c3)
qed

text \<open>
  C10. In the world that \<open>fisher_matrix\<close> leaves behind, whether it returned or raised, the
  pipeline's context selector is the one that enables gradient tracking and its \<open>_forward\<close> is
  the previous one wrapped with the callback object of that run; nothing restores them. A
  later forward call on the same pipeline therefore runs the class's \<open>_forward\<close> with gradient
  tracking enabled and calls that callback, which folds one more sample.
\<close>

theorem fisher_matrix_leaves_pipe_patched:
  assumes "w' = snd (fisher_matrix ev dataset w)"
  shows "get_inference_context (pipe w') = select_enable_grad
    \<and> forward_attr (pipe w') = callback_forward (forward_attr (pipe w)) (next_addr w)
    \<and> (forward_attr (pipe w) = class_forward_method \<and> forward ev b w' = (Inr returned, w'') \<longrightarrow>
         (\<exists>out. class_forward ev (pipe_model (pipe w)) b True = Inr out
            \<and> HessianCallback_call ev out (store w' (next_addr w)) =
                (Inr (), returned, store w'' (next_addr w)))
         \<and> num_samples (store w'' (next_addr w)) = num_samples (store w' (next_addr w)) + 1)"
proof -
  note i = instrumented_facts[of w "pipe_model (pipe w)"]
  have pw: "pipe w' = pipe (instrumented w)"
    unfolding assms by (rule fisher_matrix_pipe)
  have c1: "get_inference_context (pipe w') = select_enable_grad"
    using i by (simp add: pw)
  have c2: "forward_attr (pipe w') = callback_forward (forward_attr (pipe w)) (next_addr w)"
    using i by (simp add: pw)
  have c3: "forward_attr (pipe w) = class_forward_method \<and> forward ev b w' = (Inr returned, w'')
      \<longrightarrow> (\<exists>out. class_forward ev (pipe_model (pipe w)) b True = Inr out
            \<and> HessianCallback_call ev out (store w' (next_addr w)) =
                (Inr (), returned, store w'' (next_addr w)))
         \<and> num_samples (store w'' (next_addr w)) = num_samples (store w' (next_addr w)) + 1"
  proof
    assume a: "forward_attr (pipe w) = class_forward_method \<and>
      forward ev b w' = (Inr returned, w'')"
    then have p2: "forward_attr (pipe w') = callback_forward class_forward_method (next_addr w)"
      using c2 by simp
    have pm: "pipe_model (pipe w') = pipe_model (pipe w)"
      using i by (simp add: pw)
    from a forward_patched[OF c1 p2, of ev b] obtain out self' where
      f: "class_forward ev (pipe_model (pipe w)) b True = Inr out" and
      c: "HessianCallback_call ev out (store w' (next_addr w)) = (Inr (), returned, self')" and
      w'': "w'' = w'\<lparr>store := (store w')(next_addr w := self')\<rparr>"
      by (auto simp: pm split: sum.splits prod.splits)
    have s: "store w'' (next_addr w) = self'"
      by (simp add: w'')
    from HessianCallback_call_cases[OF c] obtain H where
      "add_sample H (store w' (next_addr w)) = (Inr (), self')" by auto
    then have "num_samples self' = num_samples (store w' (next_addr w)) + 1"
      using add_sample_num_samples[of H "store w' (next_addr w)"] by simp
    with f c s show "(\<exists>out. class_forward ev (pipe_model (pipe w)) b True = Inr out
            \<and> HessianCallback_call ev out (store w' (next_addr w)) =
                (Inr (), returned, store w'' (next_addr w)))
         \<and> num_samples (store w'' (next_addr w)) = num_samples (store w' (next_addr w)) + 1"
      by auto
  qed
  show ?thesis
    by (intro conjI c1 c2 c3)
qed

theorem fisher_matrix_leaves_pipe_patched_witness:
  "get_inference_context (pipe (snd (fisher_matrix example_env [1] example_world))) =
     select_enable_grad
   \<and> forward_attr (pipe (snd (fisher_matrix example_env [1] example_world))) =
       callback_forward class_forward_method 0
   \<and> forward_attr (pipe example_world) = class_forward_method
   \<and> get_inference_context (pipe example_world) = class_inference_context
   \<and> fst (forward example_env [5] (snd (fisher_matrix example_env [1] example_world))) =
       Inr \<lparr>logits = Some \<lparr>shape = [2], elems = [5, 5], requires_grad = False\<rparr>,
            other_fields = 1\<rparr>
   \<and> num_samples (store (snd (forward example_env [5]
          (snd (fisher_matrix example_env [1] example_world)))) 0) =
       num_samples (store (snd (fisher_matrix example_env [1] example_world)) 0) + 1"
proof -
  let ?w' = "snd (fisher_matrix example_env [1] example_world)"
  let ?R = "\<lparr>logits = Some \<lparr>shape = [2], elems = [5::real, 5], requires_grad = False\<rparr>,
            other_fields = 1::nat\<rparr>"
  have h1: "forward_attr (pipe example_world) = class_forward_method"
    by (simp add: example_world_def)
  have h0: "get_inference_context (pipe example_world) = class_inference_context"
    by (simp add: example_world_def)
  have h2: "forward example_env [5] ?w' = (Inr ?R, snd (forward example_env [5] ?w'))"
    using example_later_forward by (simp add: prod_eq_iff)
  note T = fisher_matrix_leaves_pipe_patched[OF refl, of example_env "[1]" example_world "[5]"
      ?R "snd (forward example_env [5] ?w')"]
  have c1: "get_inference_context (pipe ?w') = select_enable_grad"
    using T[THEN conjunct1] .
  have c2: "forward_attr (pipe ?w') = callback_forward class_forward_method 0"
    using T[THEN conjunct2, THEN conjunct1] by (simp add: example_world_def)
  have c3: "num_samples (store (snd (forward example_env [5] ?w')) 0) =
      num_samples (store ?w' 0) + 1"
    using T[THEN conjunct2, THEN conjunct2, rule_format, OF conjI[OF h1 h2], THEN conjunct2]
    by (simp add: example_world_def)
  show ?thesis
    by (intro conjI c1 c2 h1 h0 example_later_forward c3)
qed

end
